theory Spec2Isabelle
  imports Main "HOL-Library.Word"
begin

section \<open>JavaScript strings\<close>

text \<open>
  A JavaScript string is a sequence of UTF-16 code units; \<open>.length\<close> counts code units.
  \<open>js_lit\<close> writes an ASCII literal of the source as such a sequence.
\<close>

type_synonym code_unit = "16 word"
type_synonym jsstring = "code_unit list"

definition js_lit :: "string \<Rightarrow> jsstring" where
  "js_lit s = map of_char s"

text \<open>
  \<open>String.prototype.trim\<close> removes the code units of WhiteSpace and LineTerminator from
  both ends: TAB, LF, VT, FF, CR, SP, NBSP, U+1680, U+2000 to U+200A, U+2028, U+2029,
  U+202F, U+205F, U+3000 and U+FEFF.
\<close>

definition isWhiteSpace :: "code_unit \<Rightarrow> bool" where
  "isWhiteSpace c =
     (c = 0x09 \<or> c = 0x0A \<or> c = 0x0B \<or> c = 0x0C \<or> c = 0x0D \<or> c = 0x20 \<or> c = 0xA0 \<or>
      c = 0x1680 \<or> (0x2000 \<le> c \<and> c \<le> 0x200A) \<or> c = 0x2028 \<or> c = 0x2029 \<or>
      c = 0x202F \<or> c = 0x205F \<or> c = 0x3000 \<or> c = 0xFEFF)"

definition trim :: "jsstring \<Rightarrow> jsstring" where
  "trim s = rev (dropWhile isWhiteSpace (rev (dropWhile isWhiteSpace s)))"

section \<open>The regular expressions of the source\<close>

text \<open>
  A matcher tries one regular expression at the head of a string and returns the number
  of code units the match consumes. Under the \<open>i\<close> flag (without \<open>u\<close>) two code units
  match when their upper-case forms agree, and a non-ASCII unit whose upper-case form is
  ASCII keeps its own value; against the ASCII literals of these patterns this is
  equality after folding \<open>A-Z\<close> onto \<open>a-z\<close>.
\<close>

type_synonym matcher = "jsstring \<Rightarrow> nat option"

definition toLowerAscii :: "code_unit \<Rightarrow> code_unit" where
  "toLowerAscii c = (if 0x41 \<le> c \<and> c \<le> 0x5A then c + 0x20 else c)"

fun starts_with_ci :: "jsstring \<Rightarrow> jsstring \<Rightarrow> bool" where
  "starts_with_ci [] s = True"
| "starts_with_ci (p # ps) [] = False"
| "starts_with_ci (p # ps) (c # cs) =
     (toLowerAscii c = toLowerAscii p \<and> starts_with_ci ps cs)"

definition lit_ci :: "jsstring \<Rightarrow> matcher" where
  "lit_ci p s = (if starts_with_ci p s then Some (length p) else None)"

text \<open>\<open>\w\<close> is \<open>[A-Za-z0-9_]\<close>.\<close>

definition isWordChar :: "code_unit \<Rightarrow> bool" where
  "isWordChar c =
     ((0x61 \<le> c \<and> c \<le> 0x7A) \<or> (0x41 \<le> c \<and> c \<le> 0x5A) \<or> (0x30 \<le> c \<and> c \<le> 0x39) \<or> c = 0x5F)"

text \<open>
  \<open>/on\w+=/i\<close>: the greedy \<open>\w+\<close> takes the whole run of word characters; \<open>=\<close> is not a
  word character, so backtracking into the run never helps and the match exists exactly
  when the run is not empty and \<open>=\<close> follows it.
\<close>

definition on_handler :: matcher where
  "on_handler s =
     (if starts_with_ci (js_lit ''on'') s then
        (case dropWhile isWordChar (drop 2 s) of
           [] \<Rightarrow> None
         | c # _ \<Rightarrow>
             if takeWhile isWordChar (drop 2 s) \<noteq> [] \<and> c = 0x3D
             then Some (2 + length (takeWhile isWordChar (drop 2 s)) + 1)
             else None)
      else None)"

text \<open>\<open>/<[^>]*>/\<close>: a \<open><\<close>, then everything up to the first \<open>>\<close> after it.\<close>

definition html_tag :: matcher where
  "html_tag s =
     (case s of
        [] \<Rightarrow> None
      | c # cs \<Rightarrow>
          if c = 0x3C \<and> 0x3E \<in> set cs
          then Some (1 + length (takeWhile (\<lambda>x. x \<noteq> 0x3E) cs) + 1)
          else None)"

definition alt :: "matcher \<Rightarrow> matcher \<Rightarrow> matcher" where
  "alt m1 m2 s = (case m1 s of Some n \<Rightarrow> Some n | None \<Rightarrow> m2 s)"

text \<open>\<open>RegExp.prototype.test\<close> of a regex without the \<open>g\<close> flag: a match at any position.\<close>

fun regex_test :: "matcher \<Rightarrow> jsstring \<Rightarrow> bool" where
  "regex_test m [] = (m [] \<noteq> None)"
| "regex_test m (c # cs) = (m (c # cs) \<noteq> None \<or> regex_test m cs)"

text \<open>
  \<open>String.prototype.replace\<close> with a \<open>g\<close> regex and the replacement \<open>""\<close>: one scan from
  the left, each match deleted, the scan resumed after it (after an empty match, one
  code unit further).
\<close>

fun replace_all :: "matcher \<Rightarrow> jsstring \<Rightarrow> jsstring" where
  "replace_all m [] = []"
| "replace_all m (c # cs) =
     (case m (c # cs) of
        None \<Rightarrow> c # replace_all m cs
      | Some 0 \<Rightarrow> c # replace_all m cs
      | Some (Suc k) \<Rightarrow> replace_all m (drop k cs))"

definition script_open :: matcher where
  "script_open = lit_ci (js_lit ''<script'')"

definition javascript_scheme :: matcher where
  "javascript_scheme = lit_ci (js_lit ''javascript:'')"

text \<open>\<open>/<script|javascript:|on\w+=/i\<close>, the pattern of both schemas.\<close>

definition injection_pattern :: matcher where
  "injection_pattern = alt script_open (alt javascript_scheme on_handler)"

text \<open>\<open>sanitizeInput\<close>, the same in FiveWhysApp.tsx (lines 29-34) and WhyCard.tsx (lines 49-55).\<close>

definition sanitizeInput :: "jsstring \<Rightarrow> jsstring" where
  "sanitizeInput v = replace_all on_handler (replace_all javascript_scheme (replace_all html_tag v))"

section \<open>The validation schemas\<close>

text \<open>
  \<open>safeParse\<close> of a zod string schema: the checks run in their order and each failed one
  adds an issue; the refinement runs as well. The callers read the first issue's message.
\<close>

datatype safeParseResult = Success jsstring | Failure "jsstring list"

definition first_message :: "jsstring list \<Rightarrow> jsstring" where
  \<comment> \<open>\<open>result.error.errors[0]?.message || "Input error"\<close>\<close>
  "first_message issues =
     (case issues of
        [] \<Rightarrow> js_lit ''Input error''
      | m # _ \<Rightarrow> if m = [] then js_lit ''Input error'' else m)"

definition problemSchema :: "jsstring \<Rightarrow> safeParseResult" where
  "problemSchema v =
     (let issues =
        (if length v < 3 then [js_lit ''Problem must be at least 3 characters''] else []) @
        (if length v > 500 then [js_lit ''Text too long (max 500 characters)''] else []) @
        (if regex_test injection_pattern v then [js_lit ''Invalid content''] else [])
      in if issues = [] then Success v else Failure issues)"

definition inputSchema :: "jsstring \<Rightarrow> safeParseResult" where
  "inputSchema v =
     (let issues =
        (if length v > 500 then [js_lit ''Text too long (max 500 characters)''] else []) @
        (if regex_test injection_pattern v then [js_lit ''Invalid content''] else [])
      in if issues = [] then Success v else Failure issues)"

section \<open>The wizard controller (FiveWhysApp.tsx)\<close>

record WhyStep =
  question :: jsstring
  answer :: jsstring

record app_state =
  problem :: jsstring
  isStarted :: bool
  whySteps :: "WhyStep list"
  currentStep :: nat
  error :: "jsstring option"

definition initial_state :: app_state where
  "initial_state =
     \<lparr>problem = [], isStarted = False, whySteps = [], currentStep = 0, error = None\<rparr>"

text \<open>The template literal \<open>`Why is "${x}" happening?`\<close>; \<open>0x22\<close> is the double quote.\<close>

definition why_question :: "jsstring \<Rightarrow> jsstring" where
  "why_question x = js_lit ''Why is '' @ [0x22] @ x @ [0x22] @ js_lit '' happening?''"

definition handleProblemChange :: "jsstring \<Rightarrow> app_state \<Rightarrow> app_state" where
  "handleProblemChange raw s = s\<lparr>problem := sanitizeInput raw, error := None\<rparr>"

definition startAnalysis :: "app_state \<Rightarrow> app_state" where
  "startAnalysis s =
     (case problemSchema (problem s) of
        Failure issues \<Rightarrow> s\<lparr>error := Some (first_message issues)\<rparr>
      | Success _ \<Rightarrow>
          s\<lparr>isStarted := True,
            whySteps := [\<lparr>question = why_question (problem s), answer = []\<rparr>],
            currentStep := 0\<rparr>)"

text \<open>
  \<open>updatedSteps[currentStep].answer = answer\<close> throws a TypeError when the list has no
  element at \<open>currentStep\<close>; no state setter has run by then. Of the two \<open>setWhySteps\<close>
  calls of the first branch the later one decides the next state.
\<close>

datatype js_error = TypeError

definition handleAnswerSubmit :: "jsstring \<Rightarrow> app_state \<Rightarrow> js_error + app_state" where
  "handleAnswerSubmit a s =
     (if currentStep s < length (whySteps s) then
        (let updatedSteps =
               (whySteps s)[currentStep s := (whySteps s ! currentStep s)\<lparr>answer := a\<rparr>]
         in if currentStep s < 4
            then Inr (s\<lparr>currentStep := currentStep s + 1,
                        whySteps := updatedSteps @ [\<lparr>question = why_question a, answer = []\<rparr>]\<rparr>)
            else Inr (s\<lparr>whySteps := updatedSteps, currentStep := 5\<rparr>))
      else Inl TypeError)"

definition resetAnalysis :: "app_state \<Rightarrow> app_state" where
  "resetAnalysis s =
     s\<lparr>problem := [], isStarted := False, whySteps := [], currentStep := 0, error := None\<rparr>"

definition isCompleted :: "app_state \<Rightarrow> bool" where
  "isCompleted s = (currentStep s = 5)"

section \<open>The step presenter (WhyCard.tsx)\<close>

record card_state =
  inputValue :: jsstring
  cardError :: "jsstring option"

definition init_card :: card_state where
  "init_card = \<lparr>inputValue = [], cardError = None\<rparr>"

definition handleInputChange :: "jsstring \<Rightarrow> card_state \<Rightarrow> card_state" where
  "handleInputChange raw c = c\<lparr>inputValue := sanitizeInput raw, cardError := None\<rparr>"

text \<open>
  \<open>handleSubmit\<close> takes the \<open>onAnswerSubmit\<close> prop as a function on the owner's state. A
  string is truthy when it is not empty. When the callback throws, \<open>setInputValue("")\<close>
  is not reached.
\<close>

definition handleSubmit ::
  "(jsstring \<Rightarrow> 's \<Rightarrow> js_error + 's) \<Rightarrow> card_state \<Rightarrow> 's \<Rightarrow> js_error + (card_state \<times> 's)" where
  "handleSubmit onAnswerSubmit c s =
     (case inputSchema (inputValue c) of
        Failure issues \<Rightarrow> Inr (c\<lparr>cardError := Some (first_message issues)\<rparr>, s)
      | Success _ \<Rightarrow>
          if trim (inputValue c) \<noteq> [] then
            (case onAnswerSubmit (trim (inputValue c)) s of
               Inl e \<Rightarrow> Inl e
             | Inr s' \<Rightarrow> Inr (c\<lparr>inputValue := []\<rparr>, s'))
          else Inr (c, s))"

section \<open>The rendered interface\<close>

text \<open>
  What the JSX makes available. While \<open>isStarted\<close> is false the problem textarea and the
  start button are rendered, the button disabled while \<open>problem.trim()\<close> is empty
  (FiveWhysApp.tsx, lines 98-163). While it is true there is one WhyCard per step, keyed
  by its index, and the reset button (lines 166-216); a card shows its textarea only when
  \<open>currentStep === index\<close> (line 182, WhyCard.tsx line 112), and Enter in the textarea
  calls \<open>handleSubmit\<close> whether or not the card's button is disabled (WhyCard.tsx,
  lines 78-83). Each card keeps its own \<open>inputValue\<close> and \<open>error\<close>; a card is mounted
  with both empty and unmounted when its step is no longer rendered.
\<close>

record ui_state =
  app :: app_state
  cards :: "card_state list"

definition initial_ui :: ui_state where
  "initial_ui = \<lparr>app = initial_state, cards = []\<rparr>"

definition mounted :: "app_state \<Rightarrow> nat" where
  "mounted s = (if isStarted s then length (whySteps s) else 0)"

definition reconcile :: "app_state \<Rightarrow> card_state list \<Rightarrow> card_state list" where
  "reconcile s cs = take (mounted s) cs @ replicate (mounted s - length cs) init_card"

datatype event =
  ProblemChange jsstring
| StartClick
| CardChange jsstring
| CardSubmit
| ResetClick

definition activeCard :: "ui_state \<Rightarrow> bool" where
  "activeCard u =
     (isStarted (app u) \<and> currentStep (app u) < length (whySteps (app u)) \<and>
      currentStep (app u) < length (cards u))"

fun available :: "event \<Rightarrow> ui_state \<Rightarrow> bool" where
  "available (ProblemChange raw) u = (\<not> isStarted (app u))"
| "available StartClick u = (\<not> isStarted (app u) \<and> trim (problem (app u)) \<noteq> [])"
| "available (CardChange raw) u = activeCard u"
| "available CardSubmit u = activeCard u"
| "available ResetClick u = isStarted (app u)"

fun fire :: "event \<Rightarrow> ui_state \<Rightarrow> js_error + ui_state" where
  "fire (ProblemChange raw) u = Inr (u\<lparr>app := handleProblemChange raw (app u)\<rparr>)"
| "fire StartClick u =
     Inr \<lparr>app = startAnalysis (app u), cards = reconcile (startAnalysis (app u)) (cards u)\<rparr>"
| "fire (CardChange raw) u =
     Inr (u\<lparr>cards := (cards u)[currentStep (app u) :=
                        handleInputChange raw (cards u ! currentStep (app u))]\<rparr>)"
| "fire CardSubmit u =
     (case handleSubmit handleAnswerSubmit (cards u ! currentStep (app u)) (app u) of
        Inl e \<Rightarrow> Inl e
      | Inr (c', s') \<Rightarrow>
          Inr \<lparr>app = s', cards = reconcile s' ((cards u)[currentStep (app u) := c'])\<rparr>)"
| "fire ResetClick u =
     Inr \<lparr>app = resetAnalysis (app u), cards = reconcile (resetAnalysis (app u)) (cards u)\<rparr>"

text \<open>The states the interface can reach from the first render.\<close>

inductive reachable :: "ui_state \<Rightarrow> bool" where
  initial: "reachable initial_ui"
| step: "reachable u \<Longrightarrow> available e u \<Longrightarrow> fire e u = Inr u' \<Longrightarrow> reachable u'"

fun run :: "event list \<Rightarrow> ui_state \<Rightarrow> js_error + ui_state" where
  "run [] u = Inr u"
| "run (e # es) u =
     (if available e u then (case fire e u of Inl x \<Rightarrow> Inl x | Inr u' \<Rightarrow> run es u') else run es u)"

text \<open>Calls of \<open>handleAnswerSubmit\<close> one after the other, each on the state the last one left.\<close>

fun submitAll :: "jsstring list \<Rightarrow> app_state \<Rightarrow> js_error + app_state" where
  "submitAll [] s = Inr s"
| "submitAll (a # as) s =
     (case handleAnswerSubmit a s of Inl e \<Rightarrow> Inl e | Inr s' \<Rightarrow> submitAll as s')"

section \<open>Properties of states\<close>

text \<open>A string without leading or trailing whitespace.\<close>

definition trimmed :: "jsstring \<Rightarrow> bool" where
  "trimmed s = (s = [] \<or> (\<not> isWhiteSpace (hd s) \<and> \<not> isWhiteSpace (last s)))"

text \<open>
  The shape of a session: idle with no step at index 0, in progress with one step more
  than the index, or completed with five steps at index 5; one card per rendered step.
\<close>

definition shape_ok :: "ui_state \<Rightarrow> bool" where
  "shape_ok u =
     ((if isStarted (app u)
       then (currentStep (app u) < 5 \<and> length (whySteps (app u)) = currentStep (app u) + 1) \<or>
            (currentStep (app u) = 5 \<and> length (whySteps (app u)) = 5)
       else whySteps (app u) = [] \<and> currentStep (app u) = 0) \<and>
      length (cards u) = mounted (app u))"

section \<open>Example sessions\<close>

text \<open>The example of the method description (FiveWhysApp.tsx, lines 118-122).\<close>

definition example_problem :: jsstring where
  "example_problem = js_lit ''Car won't start''"

definition example_answers :: "jsstring list" where
  "example_answers =
     [js_lit ''Battery dead'', js_lit ''Alternator failed'', js_lit ''Belt broke'',
      js_lit ''Beyond service life'', js_lit ''No maintenance'']"

text \<open>The interface after the problem has been typed and the start button clicked.\<close>

definition example_started :: ui_state where
  "example_started =
     \<lparr>app = \<lparr>problem = example_problem, isStarted = True,
             whySteps = [\<lparr>question = why_question example_problem, answer = []\<rparr>],
             currentStep = 0, error = None\<rparr>,
      cards = [init_card]\<rparr>"

text \<open>The same interface with an answer typed into the first card, and after its submission.\<close>

definition example_typed :: ui_state where
  "example_typed =
     example_started\<lparr>cards := [\<lparr>inputValue = js_lit ''  Battery dead '', cardError = None\<rparr>]\<rparr>"

definition example_answered :: ui_state where
  "example_answered =
     \<lparr>app = \<lparr>problem = example_problem, isStarted = True,
             whySteps = [\<lparr>question = why_question example_problem, answer = js_lit ''Battery dead''\<rparr>,
                         \<lparr>question = why_question (js_lit ''Battery dead''), answer = []\<rparr>],
             currentStep = 1, error = None\<rparr>,
      cards = [init_card, init_card]\<rparr>"

text \<open>The whole example typed through the interface, and the completed session it ends in.\<close>

definition example_events :: "event list" where
  "example_events =
     [ProblemChange example_problem, StartClick,
      CardChange (js_lit ''Battery dead''), CardSubmit,
      CardChange (js_lit ''Alternator failed''), CardSubmit,
      CardChange (js_lit ''Belt broke''), CardSubmit,
      CardChange (js_lit ''Beyond service life''), CardSubmit,
      CardChange (js_lit ''No maintenance''), CardSubmit]"

definition example_completed :: ui_state where
  "example_completed =
     \<lparr>app = \<lparr>problem = example_problem, isStarted = True,
             whySteps =
               [\<lparr>question = js_lit ''Why is \"Car won't start\" happening?'',
                 answer = js_lit ''Battery dead''\<rparr>,
                \<lparr>question = js_lit ''Why is \"Battery dead\" happening?'',
                 answer = js_lit ''Alternator failed''\<rparr>,
                \<lparr>question = js_lit ''Why is \"Alternator failed\" happening?'',
                 answer = js_lit ''Belt broke''\<rparr>,
                \<lparr>question = js_lit ''Why is \"Belt broke\" happening?'',
                 answer = js_lit ''Beyond service life''\<rparr>,
                \<lparr>question = js_lit ''Why is \"Beyond service life\" happening?'',
                 answer = js_lit ''No maintenance''\<rparr>],
             currentStep = 5, error = None\<rparr>,
      cards = [init_card, init_card, init_card, init_card, init_card]\<rparr>"

text \<open>A callback that only records the answers it is handed.\<close>

definition record_answer :: "jsstring \<Rightarrow> jsstring list \<Rightarrow> js_error + jsstring list" where
  "record_answer a log = Inr (log @ [a])"

section \<open>Evaluation and basic facts\<close>

text \<open>The unfolding rules that evaluate the model on a concrete input.\<close>

lemmas regex_defs = js_lit_def lit_ci_def script_open_def javascript_scheme_def on_handler_def
  html_tag_def alt_def injection_pattern_def toLowerAscii_def isWordChar_def

lemmas ui_defs = initial_ui_def initial_state_def handleProblemChange_def startAnalysis_def
  handleInputChange_def handleSubmit_def handleAnswerSubmit_def resetAnalysis_def
  reconcile_def mounted_def activeCard_def init_card_def sanitizeInput_def trim_def
  isWhiteSpace_def problemSchema_def inputSchema_def first_message_def why_question_def
  example_problem_def example_started_def example_typed_def example_answered_def Let_def

subsection \<open>The schemas\<close>

lemma problemSchema_Success:
  "problemSchema v = Success w \<longleftrightarrow>
     (w = v \<and> 3 \<le> length v \<and> length v \<le> 500 \<and> \<not> regex_test injection_pattern v)"
  by (auto simp: problemSchema_def Let_def split: if_splits)

lemma problemSchema_valid:
  "3 \<le> length v \<Longrightarrow> length v \<le> 500 \<Longrightarrow> \<not> regex_test injection_pattern v \<Longrightarrow>
   problemSchema v = Success v"
  by (simp add: problemSchema_Success)

lemma problemSchema_invalid:
  "length v < 3 \<or> 500 < length v \<or> regex_test injection_pattern v \<Longrightarrow>
   \<exists>issues. problemSchema v = Failure issues \<and>
     first_message issues =
       (if length v < 3 then js_lit ''Problem must be at least 3 characters''
        else if 500 < length v then js_lit ''Text too long (max 500 characters)''
        else js_lit ''Invalid content'')"
  by (auto simp: problemSchema_def Let_def first_message_def js_lit_def)

lemma inputSchema_Success:
  "inputSchema v = Success w \<longleftrightarrow> (w = v \<and> length v \<le> 500 \<and> \<not> regex_test injection_pattern v)"
  by (auto simp: inputSchema_def Let_def split: if_splits)

lemma inputSchema_Failure:
  "500 < length v \<or> regex_test injection_pattern v \<Longrightarrow>
   \<exists>issues. inputSchema v = Failure issues \<and>
     first_message issues =
       (if 500 < length v then js_lit ''Text too long (max 500 characters)''
        else js_lit ''Invalid content'')"
  by (auto simp: inputSchema_def Let_def first_message_def js_lit_def)

lemma schemas_agree: "3 \<le> length v \<Longrightarrow> problemSchema v = inputSchema v"
  by (simp add: problemSchema_def inputSchema_def)

subsection \<open>Trimming\<close>

text \<open>
  The result of \<open>trim\<close> has no whitespace at either end, and \<open>trim\<close> leaves such a
  string as it is. A string that trims to nothing is all whitespace and matches none of
  the injection patterns, whose first code unit is \<open><\<close>, \<open>j\<close> or \<open>o\<close>.
\<close>

lemma trim_ends:
  assumes "trim s \<noteq> []"
  shows "\<not> isWhiteSpace (hd (trim s))" and "\<not> isWhiteSpace (last (trim s))"
proof -
  define t where "t = dropWhile isWhiteSpace s"
  define r where "r = dropWhile isWhiteSpace (rev t)"
  have ts: "trim s = rev r" by (simp add: trim_def t_def r_def)
  with assms have r: "r \<noteq> []" by simp
  then have t: "t \<noteq> []" by (auto simp: r_def)
  have "\<not> isWhiteSpace (hd r)" using r unfolding r_def by (rule hd_dropWhile)
  then show "\<not> isWhiteSpace (last (trim s))" using r by (simp add: ts last_rev)
  have "rev t = takeWhile isWhiteSpace (rev t) @ r" by (simp add: r_def)
  then have "last (rev t) = last r" using r by (metis last_appendR)
  then have "hd (rev r) = hd t" using r t by (simp add: hd_rev last_rev)
  moreover have "\<not> isWhiteSpace (hd t)" using t unfolding t_def by (rule hd_dropWhile)
  ultimately show "\<not> isWhiteSpace (hd (trim s))" by (simp add: ts)
qed

lemma trimmed_trim: "trimmed (trim s)"
  using trim_ends [of s] by (auto simp: trimmed_def)

lemma trim_fixed: "trimmed s \<Longrightarrow> trim s = s"
proof (cases "s = []")
  case True
  then show ?thesis by (simp add: trim_def)
next
  case False
  assume "trimmed s"
  with False have h: "\<not> isWhiteSpace (hd s)" and l: "\<not> isWhiteSpace (last s)"
    by (auto simp: trimmed_def)
  from h False have 1: "dropWhile isWhiteSpace s = s" by (cases s) auto
  from False have "hd (rev s) = last s" by (simp add: hd_rev)
  with l have "\<not> isWhiteSpace (hd (rev s))" by simp
  with False have 2: "dropWhile isWhiteSpace (rev s) = rev s" by (cases "rev s") auto
  show ?thesis by (simp add: trim_def 1 2)
qed

lemma trim_Nil_whitespace: "trim v = [] \<Longrightarrow> \<forall>c\<in>set v. isWhiteSpace c"
proof -
  assume "trim v = []"
  then have "\<forall>c\<in>set (dropWhile isWhiteSpace v). isWhiteSpace c"
    by (simp add: trim_def dropWhile_eq_Nil_conv)
  moreover have "\<forall>c\<in>set (takeWhile isWhiteSpace v). isWhiteSpace c"
    by (auto dest: set_takeWhileD)
  moreover have "set v = set (takeWhile isWhiteSpace v) \<union> set (dropWhile isWhiteSpace v)"
    by (metis set_append takeWhile_dropWhile_id)
  ultimately show ?thesis by blast
qed

lemma whitespace_not_upper: "isWhiteSpace c \<Longrightarrow> \<not> (0x41 \<le> c \<and> c \<le> 0x5A)"
  unfolding isWhiteSpace_def by (elim disjE conjE) (simp_all add: word_le_nat_alt, unat_arith?)

lemma whitespace_lower: "isWhiteSpace c \<Longrightarrow> toLowerAscii c = c"
  using whitespace_not_upper [of c] by (simp add: toLowerAscii_def)

lemma whitespace_not_start:
  "isWhiteSpace c \<Longrightarrow> c \<noteq> 0x3C \<and> c \<noteq> 0x6A \<and> c \<noteq> 0x6F"
  unfolding isWhiteSpace_def by (elim disjE conjE) (simp_all add: word_le_nat_alt, unat_arith?)

lemma injection_pattern_Nil: "injection_pattern [] = None"
  by (simp add: regex_defs)

lemma toLowerAscii_lits:
  "toLowerAscii 0x3C = 0x3C" "toLowerAscii 0x6A = 0x6A" "toLowerAscii 0x6F = 0x6F"
  by (simp_all add: toLowerAscii_def)

lemma injection_pattern_head:
  "injection_pattern (c # cs) \<noteq> None \<Longrightarrow>
   toLowerAscii c = 0x3C \<or> toLowerAscii c = 0x6A \<or> toLowerAscii c = 0x6F"
  by (auto simp: injection_pattern_def alt_def script_open_def javascript_scheme_def on_handler_def
      lit_ci_def js_lit_def toLowerAscii_lits split: option.splits if_splits)

lemma whitespace_no_injection:
  "\<forall>c\<in>set v. isWhiteSpace c \<Longrightarrow> \<not> regex_test injection_pattern v"
proof (induction v)
  case Nil
  show ?case by (simp add: injection_pattern_Nil)
next
  case (Cons c cs)
  then have w: "isWhiteSpace c" by simp
  have "injection_pattern (c # cs) = None"
  proof (rule ccontr)
    assume "injection_pattern (c # cs) \<noteq> None"
    from injection_pattern_head [OF this] whitespace_lower [OF w] whitespace_not_start [OF w]
    show False by simp
  qed
  with Cons show ?case by simp
qed

subsection \<open>The patterns and the global replacement\<close>

text \<open>
  A global replacement only deletes code units, so it cannot bring a \<open>>\<close> behind a \<open><\<close>
  that had none; and the tag replacement itself leaves no \<open><\<close> with a \<open>>\<close> after it.
\<close>

lemma regex_test_alt: "regex_test (alt m1 m2) s = (regex_test m1 s \<or> regex_test m2 s)"
  by (induction s) (auto simp: alt_def split: option.splits)

lemma regex_test_injection:
  "regex_test injection_pattern s =
     (regex_test script_open s \<or> regex_test javascript_scheme s \<or> regex_test on_handler s)"
  by (simp add: injection_pattern_def regex_test_alt)

lemma html_tag_None:
  "html_tag (c # cs) = None \<longleftrightarrow> \<not> (c = 0x3C \<and> 0x3E \<in> set cs)"
  by (simp add: html_tag_def)

lemma html_tag_not_zero: "html_tag s \<noteq> Some 0"
  by (simp add: html_tag_def split: list.splits)

lemma regex_test_html_tag_Cons:
  "regex_test html_tag (c # cs) = ((c = 0x3C \<and> 0x3E \<in> set cs) \<or> regex_test html_tag cs)"
  by (auto simp: html_tag_def)

lemma set_replace_all: "set (replace_all m s) \<subseteq> set s"
proof (induction m s rule: replace_all.induct)
  case (1 m)
  show ?case by simp
next
  case (2 m c cs)
  show ?case
  proof (cases "m (c # cs)")
    case None
    with 2 show ?thesis by auto
  next
    case (Some n)
    show ?thesis
    proof (cases n)
      case 0
      with Some 2 show ?thesis by auto
    next
      case (Suc k)
      with Some 2 have "set (replace_all m (drop k cs)) \<subseteq> set (drop k cs)" by simp
      also have "\<dots> \<subseteq> set cs" by (rule set_drop_subset)
      finally show ?thesis using Some Suc by auto
    qed
  qed
qed

lemma no_tag_drop: "\<not> regex_test html_tag s \<Longrightarrow> \<not> regex_test html_tag (drop k s)"
proof (induction s arbitrary: k)
  case Nil
  then show ?case by simp
next
  case (Cons c cs)
  then show ?case by (cases k) (simp_all only: drop_Suc_Cons drop_0 regex_test_html_tag_Cons, auto)
qed

lemma no_tag_replace_all:
  "\<not> regex_test html_tag s \<Longrightarrow> \<not> regex_test html_tag (replace_all m s)"
proof (induction m s rule: replace_all.induct)
  case (1 m)
  then show ?case by simp
next
  case (2 m c cs)
  from 2(4) have head: "\<not> (c = 0x3C \<and> 0x3E \<in> set cs)" and tail: "\<not> regex_test html_tag cs"
    by (simp_all del: regex_test.simps add: regex_test_html_tag_Cons)
  show ?case
  proof (cases "m (c # cs)")
    case None
    with 2(1) tail have "\<not> regex_test html_tag (replace_all m cs)" by simp
    moreover from head set_replace_all [of m cs] have "\<not> (c = 0x3C \<and> 0x3E \<in> set (replace_all m cs))"
      by auto
    ultimately show ?thesis using None by (simp del: regex_test.simps add: regex_test_html_tag_Cons)
  next
    case (Some n)
    show ?thesis
    proof (cases n)
      case 0
      with Some 2(2) tail have "\<not> regex_test html_tag (replace_all m cs)" by simp
      moreover from head set_replace_all [of m cs] have "\<not> (c = 0x3C \<and> 0x3E \<in> set (replace_all m cs))"
        by auto
      ultimately show ?thesis using Some 0 by (simp del: regex_test.simps add: regex_test_html_tag_Cons)
    next
      case (Suc k)
      from tail have "\<not> regex_test html_tag (drop k cs)" by (rule no_tag_drop)
      with Some Suc 2(3) have "\<not> regex_test html_tag (replace_all m (drop k cs))" by simp
      with Some Suc show ?thesis by simp
    qed
  qed
qed

lemma replace_all_html_tag_clean: "\<not> regex_test html_tag (replace_all html_tag s)"
proof (induction "html_tag" s rule: replace_all.induct)
  case 1
  show ?case by (simp add: html_tag_def)
next
  case (2 c cs)
  show ?case
  proof (cases "html_tag (c # cs)")
    case None
    then have "\<not> (c = 0x3C \<and> 0x3E \<in> set cs)" using html_tag_None [of c cs] by blast
    with set_replace_all [of html_tag cs] have "\<not> (c = 0x3C \<and> 0x3E \<in> set (replace_all html_tag cs))"
      by auto
    moreover from None 2(1) have "\<not> regex_test html_tag (replace_all html_tag cs)" by simp
    ultimately show ?thesis using None by (simp del: regex_test.simps add: regex_test_html_tag_Cons)
  next
    case (Some n)
    show ?thesis
    proof (cases n)
      case 0
      with Some html_tag_not_zero [of "c # cs"] show ?thesis by simp
    next
      case (Suc k)
      with Some 2(3) show ?thesis by simp
    qed
  qed
qed

lemma sanitizeInput_no_tag: "\<not> regex_test html_tag (sanitizeInput v)"
  unfolding sanitizeInput_def
  by (intro no_tag_replace_all replace_all_html_tag_clean)

subsection \<open>The controller and the card\<close>

lemma handleAnswerSubmit_step:
  assumes "currentStep s < length (whySteps s)"
  shows "handleAnswerSubmit a s =
     Inr (if currentStep s < 4
          then s\<lparr>currentStep := currentStep s + 1,
                 whySteps := (whySteps s)[currentStep s := (whySteps s ! currentStep s)\<lparr>answer := a\<rparr>]
                             @ [\<lparr>question = why_question a, answer = []\<rparr>]\<rparr>
          else s\<lparr>whySteps := (whySteps s)[currentStep s := (whySteps s ! currentStep s)\<lparr>answer := a\<rparr>],
                 currentStep := 5\<rparr>)"
  using assms by (simp add: handleAnswerSubmit_def Let_def)

lemma handleAnswerSubmit_currentStep:
  "handleAnswerSubmit a s = Inr s' \<Longrightarrow>
   currentStep s' = (if currentStep s < 4 then currentStep s + 1 else 5)"
  by (auto simp: handleAnswerSubmit_def Let_def split: if_splits)

lemma handleSubmit_cases:
  assumes "handleSubmit f c s = Inr (c', s')"
  shows "(s' = s) \<or> (f (trim (inputValue c)) s = Inr s' \<and> trim (inputValue c) \<noteq> [])"
  using assms by (auto simp: handleSubmit_def split: safeParseResult.splits if_splits sum.splits)

lemma handleSubmit_blank:
  assumes "trim (inputValue c) = []" and "length (inputValue c) \<le> 500"
  shows "inputSchema (inputValue c) = Success (inputValue c)" and "handleSubmit f c s = Inr (c, s)"
proof -
  from assms(1) have "\<not> regex_test injection_pattern (inputValue c)"
    by (intro whitespace_no_injection trim_Nil_whitespace)
  with assms(2) show "inputSchema (inputValue c) = Success (inputValue c)"
    by (simp add: inputSchema_Success)
  with assms(1) show "handleSubmit f c s = Inr (c, s)" by (simp add: handleSubmit_def)
qed

lemma length_reconcile: "length (reconcile s cs) = mounted s"
  by (simp add: reconcile_def)

lemma reconcile_id: "length cs = mounted s \<Longrightarrow> reconcile s cs = cs"
  by (simp add: reconcile_def)

subsection \<open>Invariants of the reachable states\<close>

text \<open>
  Every event the interface offers keeps the shape of the session, and keeps every
  recorded answer trimmed; no event but the reset click lowers the index.
\<close>

lemma startAnalysis_shape:
  "\<not> isStarted s \<Longrightarrow> whySteps s = [] \<and> currentStep s = 0 \<Longrightarrow>
   (isStarted (startAnalysis s) \<and> currentStep (startAnalysis s) = 0 \<and> length (whySteps (startAnalysis s)) = 1)
   \<or> (\<not> isStarted (startAnalysis s) \<and> whySteps (startAnalysis s) = [] \<and> currentStep (startAnalysis s) = 0)"
  by (simp add: startAnalysis_def split: safeParseResult.splits)

lemma fire_shape:
  assumes "shape_ok u" and "available e u" and "fire e u = Inr u'"
  shows "shape_ok u'"
proof (cases e)
  case (ProblemChange raw)
  with assms show ?thesis
    by (auto simp: shape_ok_def handleProblemChange_def mounted_def)
next
  case StartClick
  with assms have ns: "\<not> isStarted (app u)" and e: "whySteps (app u) = [] \<and> currentStep (app u) = 0"
    by (auto simp: shape_ok_def)
  from StartClick assms have u': "u' = \<lparr>app = startAnalysis (app u), cards = reconcile (startAnalysis (app u)) (cards u)\<rparr>"
    by simp
  from startAnalysis_shape [OF ns e] show ?thesis
    by (auto simp: shape_ok_def u' length_reconcile mounted_def)
next
  case (CardChange raw)
  with assms show ?thesis by (auto simp: shape_ok_def)
next
  case CardSubmit
  with assms have act: "activeCard u" by simp
  from CardSubmit assms obtain c' s' where
    hs: "handleSubmit handleAnswerSubmit (cards u ! currentStep (app u)) (app u) = Inr (c', s')"
    and u': "u' = \<lparr>app = s', cards = reconcile s' ((cards u)[currentStep (app u) := c'])\<rparr>"
    by (auto split: sum.splits)
  from handleSubmit_cases [OF hs] show ?thesis
  proof
    assume "s' = app u"
    with assms(1) show ?thesis
      by (auto simp: shape_ok_def u' length_reconcile split: if_splits)
  next
    assume "handleAnswerSubmit (trim (inputValue (cards u ! currentStep (app u)))) (app u) = Inr s'
      \<and> trim (inputValue (cards u ! currentStep (app u))) \<noteq> []"
    then have "handleAnswerSubmit (trim (inputValue (cards u ! currentStep (app u)))) (app u) = Inr s'" ..
    moreover from act have "currentStep (app u) < length (whySteps (app u))" and "isStarted (app u)"
      by (simp_all add: activeCard_def)
    ultimately show ?thesis using assms(1)
      by (auto simp: shape_ok_def u' length_reconcile handleAnswerSubmit_step mounted_def split: if_splits)
  qed
next
  case ResetClick
  with assms show ?thesis
    by (auto simp: shape_ok_def resetAnalysis_def reconcile_def mounted_def)
qed

lemma reachable_shape: "reachable u \<Longrightarrow> shape_ok u"
proof (induction rule: reachable.induct)
  case initial
  show ?case by (simp add: shape_ok_def initial_ui_def initial_state_def mounted_def)
next
  case (step u e u')
  then show ?case by (blast intro: fire_shape)
qed

lemma fire_forward:
  assumes "shape_ok u" and "available e u" and "fire e u = Inr u'" and "e \<noteq> ResetClick"
  shows "currentStep (app u) \<le> currentStep (app u')"
proof (cases e)
  case (ProblemChange raw)
  with assms show ?thesis by (auto simp: handleProblemChange_def)
next
  case StartClick
  with assms have "currentStep (app u) = 0" by (auto simp: shape_ok_def)
  then show ?thesis by simp
next
  case (CardChange raw)
  with assms show ?thesis by auto
next
  case CardSubmit
  with assms have act: "activeCard u" by simp
  from CardSubmit assms obtain c' s' where
    hs: "handleSubmit handleAnswerSubmit (cards u ! currentStep (app u)) (app u) = Inr (c', s')"
    and u': "app u' = s'"
    by (auto split: sum.splits)
  from handleSubmit_cases [OF hs] show ?thesis
  proof
    assume "s' = app u"
    with u' show ?thesis by simp
  next
    assume "handleAnswerSubmit (trim (inputValue (cards u ! currentStep (app u)))) (app u) = Inr s'
      \<and> trim (inputValue (cards u ! currentStep (app u))) \<noteq> []"
    then have "handleAnswerSubmit (trim (inputValue (cards u ! currentStep (app u)))) (app u) = Inr s'" ..
    then have "currentStep s' = (if currentStep (app u) < 4 then currentStep (app u) + 1 else 5)"
      by (rule handleAnswerSubmit_currentStep)
    moreover from act assms(1) have "currentStep (app u) < 5"
      by (auto simp: activeCard_def shape_ok_def)
    ultimately show ?thesis using u' by (simp split: if_splits)
  qed
next
  case ResetClick
  with assms show ?thesis by simp
qed

lemma set_answer_update:
  assumes "\<forall>st\<in>set xs. trimmed (answer st)" and "trimmed a"
  shows "\<forall>st\<in>set (xs[i := (xs ! i)\<lparr>answer := a\<rparr>]). trimmed (answer st)"
proof
  fix st assume "st \<in> set (xs[i := (xs ! i)\<lparr>answer := a\<rparr>])"
  then have "st \<in> insert ((xs ! i)\<lparr>answer := a\<rparr>) (set xs)"
    using set_update_subset_insert by fastforce
  with assms show "trimmed (answer st)" by auto
qed

lemma handleAnswerSubmit_answers:
  assumes "\<forall>st\<in>set (whySteps s). trimmed (answer st)" and "trimmed a"
    and "handleAnswerSubmit a s = Inr s'"
  shows "\<forall>st\<in>set (whySteps s'). trimmed (answer st)"
proof -
  from set_answer_update [OF assms(1,2)]
  have u: "\<forall>st\<in>set ((whySteps s)[currentStep s := (whySteps s ! currentStep s)\<lparr>answer := a\<rparr>]).
      trimmed (answer st)" .
  from assms(3) have "whySteps s' =
      (whySteps s)[currentStep s := (whySteps s ! currentStep s)\<lparr>answer := a\<rparr>] @
        [\<lparr>question = why_question a, answer = []\<rparr>] \<or>
    whySteps s' = (whySteps s)[currentStep s := (whySteps s ! currentStep s)\<lparr>answer := a\<rparr>]"
    by (auto simp: handleAnswerSubmit_def Let_def split: if_splits)
  with u show ?thesis by (auto simp: trimmed_def)
qed

lemma fire_answers:
  assumes "\<forall>st\<in>set (whySteps (app u)). trimmed (answer st)" and "fire e u = Inr u'"
  shows "\<forall>st\<in>set (whySteps (app u')). trimmed (answer st)"
proof (cases e)
  case (ProblemChange raw)
  with assms show ?thesis by (auto simp: handleProblemChange_def)
next
  case StartClick
  with assms show ?thesis
    by (auto simp: startAnalysis_def trimmed_def split: safeParseResult.splits)
next
  case (CardChange raw)
  with assms show ?thesis by auto
next
  case CardSubmit
  with assms obtain c' s' where
    hs: "handleSubmit handleAnswerSubmit (cards u ! currentStep (app u)) (app u) = Inr (c', s')"
    and u': "app u' = s'"
    by (auto split: sum.splits)
  from handleSubmit_cases [OF hs] show ?thesis
  proof
    assume "s' = app u"
    with u' assms(1) show ?thesis by simp
  next
    assume "handleAnswerSubmit (trim (inputValue (cards u ! currentStep (app u)))) (app u) = Inr s'
      \<and> trim (inputValue (cards u ! currentStep (app u))) \<noteq> []"
    then have "handleAnswerSubmit (trim (inputValue (cards u ! currentStep (app u)))) (app u) = Inr s'" ..
    with assms(1) trimmed_trim have "\<forall>st\<in>set (whySteps s'). trimmed (answer st)"
      by (rule handleAnswerSubmit_answers)
    with u' show ?thesis by simp
  qed
next
  case ResetClick
  with assms show ?thesis by (auto simp: resetAnalysis_def)
qed

lemma reachable_answers: "reachable u \<Longrightarrow> \<forall>st\<in>set (whySteps (app u)). trimmed (answer st)"
proof (induction rule: reachable.induct)
  case initial
  show ?case by (simp add: initial_ui_def initial_state_def)
next
  case (step u e u')
  from step.IH step.hyps(3) show ?case by (rule fire_answers)
qed

lemma run_reachable: "reachable u \<Longrightarrow> run es u = Inr u' \<Longrightarrow> reachable u'"
proof (induction es arbitrary: u)
  case Nil
  then show ?case by simp
next
  case (Cons e es)
  show ?case
  proof (cases "available e u")
    case True
    with Cons.prems(2) obtain v where v: "fire e u = Inr v" and r: "run es v = Inr u'"
      by (auto split: sum.splits)
    from Cons.prems(1) True v have "reachable v" by (rule reachable.step)
    then show ?thesis using r by (rule Cons.IH)
  next
    case False
    with Cons show ?thesis by simp
  qed
qed

subsection \<open>The example session\<close>

lemma example_started_run:
  "run [ProblemChange example_problem, StartClick] initial_ui = Inr example_started"
  by (simp add: ui_defs regex_defs)

lemma example_started_reachable: "reachable example_started"
  using reachable.initial example_started_run by (rule run_reachable)

lemma example_typed_run: "run [CardChange (js_lit ''  Battery dead '')] example_started = Inr example_typed"
  by (simp add: ui_defs regex_defs)

lemma example_typed_reachable: "reachable example_typed"
  using example_started_reachable example_typed_run by (rule run_reachable)

lemma example_answered_fire: "fire CardSubmit example_typed = Inr example_answered"
  by (simp add: ui_defs regex_defs)

lemma example_typed_available: "available CardSubmit example_typed"
  by (simp add: ui_defs)

lemma example_answered_reachable: "reachable example_answered"
  using example_typed_reachable example_typed_available example_answered_fire
  by (rule reachable.step)

lemma example_session_run: "run example_events initial_ui = Inr example_completed"
  by code_simp

lemma example_completed_reachable: "reachable example_completed"
  using reachable.initial example_session_run by (rule run_reachable)

lemma example_completed_no_card:
  "\<not> available CardSubmit example_completed \<and> \<not> available StartClick example_completed \<and>
   isCompleted (app example_completed)"
  by (simp add: example_completed_def activeCard_def isCompleted_def)

section \<open>Reset\<close>

text \<open>
  C8. \<open>resetAnalysis\<close>, from any state whatever (idle, in progress or completed), gives
  the initial state: not started, empty problem text, no step, index 0 and no error
  message; at the interface the reset click also leaves no card mounted.
\<close>

theorem resetAnalysis_initial:
  "resetAnalysis s = initial_state \<and>
   problem (resetAnalysis s) = [] \<and> \<not> isStarted (resetAnalysis s) \<and>
   whySteps (resetAnalysis s) = [] \<and> currentStep (resetAnalysis s) = 0 \<and>
   error (resetAnalysis s) = None \<and>
   fire ResetClick u = Inr initial_ui"
  by (simp add: resetAnalysis_def initial_state_def initial_ui_def reconcile_def mounted_def)

theorem resetAnalysis_initial_witness:
  "resetAnalysis
     \<lparr>problem = js_lit ''abc'', isStarted = True,
      whySteps = [\<lparr>question = why_question (js_lit ''abc''), answer = []\<rparr>],
      currentStep = 0, error = None\<rparr> = initial_state"
  using resetAnalysis_initial
          [of "\<lparr>problem = js_lit ''abc'', isStarted = True,
                whySteps = [\<lparr>question = why_question (js_lit ''abc''), answer = []\<rparr>],
                currentStep = 0, error = None\<rparr>"]
  by (rule conjunct1)

section \<open>Starting an analysis\<close>

text \<open>
  C2. When the problem text has 3 to 500 code units and does not match the injection
  pattern, \<open>startAnalysis\<close> starts the session with exactly one step, whose question is
  \<open>Why is "<problem>" happening?\<close> and whose answer is empty, at index 0. For the problem
  \<open>Car won't start\<close> the step's question is \<open>Why is "Car won't start" happening?\<close>.
\<close>

theorem startAnalysis_valid:
  "(3 \<le> length (problem s) \<and> length (problem s) \<le> 500 \<and>
    \<not> regex_test injection_pattern (problem s) \<longrightarrow>
    startAnalysis s =
      s\<lparr>isStarted := True,
        whySteps := [\<lparr>question = js_lit ''Why is \"'' @ problem s @ js_lit ''\" happening?'',
                     answer = []\<rparr>],
        currentStep := 0\<rparr> \<and>
    length (whySteps (startAnalysis s)) = 1) \<and>
   whySteps (startAnalysis (s\<lparr>problem := js_lit ''Car won't start''\<rparr>)) =
     [\<lparr>question = js_lit ''Why is \"Car won't start\" happening?'', answer = []\<rparr>]"
proof -
  have car: "problemSchema (js_lit ''Car won't start'') = Success (js_lit ''Car won't start'')"
    by (simp add: problemSchema_def regex_defs)
  have "whySteps (startAnalysis (s\<lparr>problem := js_lit ''Car won't start''\<rparr>)) =
     [\<lparr>question = js_lit ''Why is \"Car won't start\" happening?'', answer = []\<rparr>]"
    by (simp add: startAnalysis_def car why_question_def) (simp add: js_lit_def)
  then show ?thesis
    by (simp add: startAnalysis_def problemSchema_valid why_question_def js_lit_def)
qed

theorem startAnalysis_valid_witness:
  "3 \<le> length (problem (initial_state\<lparr>problem := js_lit ''Battery dead''\<rparr>)) \<and>
   length (problem (initial_state\<lparr>problem := js_lit ''Battery dead''\<rparr>)) \<le> 500 \<and>
   \<not> regex_test injection_pattern (problem (initial_state\<lparr>problem := js_lit ''Battery dead''\<rparr>)) \<and>
   startAnalysis (initial_state\<lparr>problem := js_lit ''Battery dead''\<rparr>) =
     \<lparr>problem = js_lit ''Battery dead'', isStarted = True,
      whySteps = [\<lparr>question = js_lit ''Why is \"Battery dead\" happening?'', answer = []\<rparr>],
      currentStep = 0, error = None\<rparr>"
proof -
  have h: "3 \<le> length (problem (initial_state\<lparr>problem := js_lit ''Battery dead''\<rparr>)) \<and>
     length (problem (initial_state\<lparr>problem := js_lit ''Battery dead''\<rparr>)) \<le> 500 \<and>
     \<not> regex_test injection_pattern (problem (initial_state\<lparr>problem := js_lit ''Battery dead''\<rparr>))"
    by (simp add: regex_defs)
  from startAnalysis_valid [of "initial_state\<lparr>problem := js_lit ''Battery dead''\<rparr>"] h
  have "startAnalysis (initial_state\<lparr>problem := js_lit ''Battery dead''\<rparr>) =
      (initial_state\<lparr>problem := js_lit ''Battery dead''\<rparr>)
        \<lparr>isStarted := True,
         whySteps := [\<lparr>question = js_lit ''Why is \"'' @
                         problem (initial_state\<lparr>problem := js_lit ''Battery dead''\<rparr>) @
                         js_lit ''\" happening?'', answer = []\<rparr>],
         currentStep := 0\<rparr>"
    by blast
  then have "startAnalysis (initial_state\<lparr>problem := js_lit ''Battery dead''\<rparr>) =
     \<lparr>problem = js_lit ''Battery dead'', isStarted = True,
      whySteps = [\<lparr>question = js_lit ''Why is \"Battery dead\" happening?'', answer = []\<rparr>],
      currentStep = 0, error = None\<rparr>"
    by (simp add: initial_state_def js_lit_def)
  with h show ?thesis by blast
qed

text \<open>
  C4. When the problem text is shorter than 3 code units, longer than 500, or matches the
  injection pattern, \<open>startAnalysis\<close> only sets the error message (the message of the
  first failed check); the problem text, the started flag, the steps and the index stay
  as they were.
\<close>

theorem startAnalysis_invalid:
  assumes "length (problem s) < 3 \<or> 500 < length (problem s) \<or>
           regex_test injection_pattern (problem s)"
  shows "startAnalysis s =
           s\<lparr>error := Some
               (if length (problem s) < 3 then js_lit ''Problem must be at least 3 characters''
                else if 500 < length (problem s) then js_lit ''Text too long (max 500 characters)''
                else js_lit ''Invalid content'')\<rparr> \<and>
         isStarted (startAnalysis s) = isStarted s \<and>
         whySteps (startAnalysis s) = whySteps s \<and>
         currentStep (startAnalysis s) = currentStep s \<and>
         problem (startAnalysis s) = problem s"
proof -
  from problemSchema_invalid [OF assms] obtain issues where
    "problemSchema (problem s) = Failure issues" and
    "first_message issues =
       (if length (problem s) < 3 then js_lit ''Problem must be at least 3 characters''
        else if 500 < length (problem s) then js_lit ''Text too long (max 500 characters)''
        else js_lit ''Invalid content'')"
    by blast
  then show ?thesis by (simp add: startAnalysis_def)
qed

theorem startAnalysis_invalid_witness:
  "regex_test injection_pattern (problem (initial_state\<lparr>problem := js_lit ''x onload=1''\<rparr>)) \<and>
   startAnalysis (initial_state\<lparr>problem := js_lit ''x onload=1''\<rparr>) =
     \<lparr>problem = js_lit ''x onload=1'', isStarted = False, whySteps = [], currentStep = 0,
      error = Some (js_lit ''Invalid content'')\<rparr>"
proof -
  have h: "regex_test injection_pattern (problem (initial_state\<lparr>problem := js_lit ''x onload=1''\<rparr>))"
    by (simp add: regex_defs)
  then have "length (problem (initial_state\<lparr>problem := js_lit ''x onload=1''\<rparr>)) < 3 \<or>
      500 < length (problem (initial_state\<lparr>problem := js_lit ''x onload=1''\<rparr>)) \<or>
      regex_test injection_pattern (problem (initial_state\<lparr>problem := js_lit ''x onload=1''\<rparr>))"
    by blast
  from startAnalysis_invalid [OF this] h show ?thesis
    by (simp add: initial_state_def js_lit_def)
qed

section \<open>Submitting answers\<close>

text \<open>
  C1. From a session with one unanswered step at index 0, five calls of
  \<open>handleAnswerSubmit\<close> in sequence, with any answers, all return. Each of the first four
  records its answer on the current step, appends a step whose question embeds that
  answer and raises the index by one; the fifth records its answer and sets the index to
  5 without appending. The session then has exactly five steps.
\<close>

theorem five_answers_complete:
  assumes "whySteps s = [\<lparr>question = q, answer = []\<rparr>]" and "currentStep s = 0"
  shows "submitAll [a1] s =
           Inr (s\<lparr>whySteps := [\<lparr>question = q, answer = a1\<rparr>,
                                \<lparr>question = why_question a1, answer = []\<rparr>],
                  currentStep := 1\<rparr>) \<and>
         submitAll [a1, a2] s =
           Inr (s\<lparr>whySteps := [\<lparr>question = q, answer = a1\<rparr>,
                                \<lparr>question = why_question a1, answer = a2\<rparr>,
                                \<lparr>question = why_question a2, answer = []\<rparr>],
                  currentStep := 2\<rparr>) \<and>
         submitAll [a1, a2, a3] s =
           Inr (s\<lparr>whySteps := [\<lparr>question = q, answer = a1\<rparr>,
                                \<lparr>question = why_question a1, answer = a2\<rparr>,
                                \<lparr>question = why_question a2, answer = a3\<rparr>,
                                \<lparr>question = why_question a3, answer = []\<rparr>],
                  currentStep := 3\<rparr>) \<and>
         submitAll [a1, a2, a3, a4] s =
           Inr (s\<lparr>whySteps := [\<lparr>question = q, answer = a1\<rparr>,
                                \<lparr>question = why_question a1, answer = a2\<rparr>,
                                \<lparr>question = why_question a2, answer = a3\<rparr>,
                                \<lparr>question = why_question a3, answer = a4\<rparr>,
                                \<lparr>question = why_question a4, answer = []\<rparr>],
                  currentStep := 4\<rparr>) \<and>
         submitAll [a1, a2, a3, a4, a5] s =
           Inr (s\<lparr>whySteps := [\<lparr>question = q, answer = a1\<rparr>,
                                \<lparr>question = why_question a1, answer = a2\<rparr>,
                                \<lparr>question = why_question a2, answer = a3\<rparr>,
                                \<lparr>question = why_question a3, answer = a4\<rparr>,
                                \<lparr>question = why_question a4, answer = a5\<rparr>],
                  currentStep := 5\<rparr>) \<and>
         (case submitAll [a1, a2, a3, a4, a5] s of
            Inl e \<Rightarrow> False
          | Inr s' \<Rightarrow> length (whySteps s') = 5 \<and> isCompleted s')"
  using assms by (simp add: handleAnswerSubmit_def isCompleted_def Let_def)

theorem five_answers_complete_witness:
  "whySteps (app example_started) = [\<lparr>question = why_question example_problem, answer = []\<rparr>] \<and>
   currentStep (app example_started) = 0 \<and>
   submitAll example_answers (app example_started) =
     Inr \<lparr>problem = example_problem, isStarted = True,
          whySteps =
            [\<lparr>question = js_lit ''Why is \"Car won't start\" happening?'', answer = js_lit ''Battery dead''\<rparr>,
             \<lparr>question = js_lit ''Why is \"Battery dead\" happening?'', answer = js_lit ''Alternator failed''\<rparr>,
             \<lparr>question = js_lit ''Why is \"Alternator failed\" happening?'', answer = js_lit ''Belt broke''\<rparr>,
             \<lparr>question = js_lit ''Why is \"Belt broke\" happening?'', answer = js_lit ''Beyond service life''\<rparr>,
             \<lparr>question = js_lit ''Why is \"Beyond service life\" happening?'', answer = js_lit ''No maintenance''\<rparr>],
          currentStep = 5, error = None\<rparr>"
proof -
  have h: "whySteps (app example_started) = [\<lparr>question = why_question example_problem, answer = []\<rparr>]"
    "currentStep (app example_started) = 0"
    by (simp_all add: example_started_def)
  from five_answers_complete [OF h, of "js_lit ''Battery dead''" "js_lit ''Alternator failed''"
      "js_lit ''Belt broke''" "js_lit ''Beyond service life''" "js_lit ''No maintenance''"]
  have "submitAll example_answers (app example_started) =
      Inr ((app example_started)
        \<lparr>whySteps := [\<lparr>question = why_question example_problem, answer = js_lit ''Battery dead''\<rparr>,
            \<lparr>question = why_question (js_lit ''Battery dead''), answer = js_lit ''Alternator failed''\<rparr>,
            \<lparr>question = why_question (js_lit ''Alternator failed''), answer = js_lit ''Belt broke''\<rparr>,
            \<lparr>question = why_question (js_lit ''Belt broke''), answer = js_lit ''Beyond service life''\<rparr>,
            \<lparr>question = why_question (js_lit ''Beyond service life''), answer = js_lit ''No maintenance''\<rparr>],
         currentStep := 5\<rparr>)"
    unfolding example_answers_def by blast
  then have "submitAll example_answers (app example_started) =
     Inr \<lparr>problem = example_problem, isStarted = True,
          whySteps =
            [\<lparr>question = js_lit ''Why is \"Car won't start\" happening?'', answer = js_lit ''Battery dead''\<rparr>,
             \<lparr>question = js_lit ''Why is \"Battery dead\" happening?'', answer = js_lit ''Alternator failed''\<rparr>,
             \<lparr>question = js_lit ''Why is \"Alternator failed\" happening?'', answer = js_lit ''Belt broke''\<rparr>,
             \<lparr>question = js_lit ''Why is \"Belt broke\" happening?'', answer = js_lit ''Beyond service life''\<rparr>,
             \<lparr>question = js_lit ''Why is \"Beyond service life\" happening?'', answer = js_lit ''No maintenance''\<rparr>],
          currentStep = 5, error = None\<rparr>"
    by (simp add: example_started_def example_problem_def why_question_def js_lit_def)
  with h show ?thesis by blast
qed

section \<open>The session invariant\<close>

text \<open>
  C3. In every state the interface can reach: while the analysis is in progress (started
  and not completed) the number of steps is the index plus one; the index is at most 5,
  and at 5 (completed) there are five steps; and no available event other than the reset
  click lowers the index.
\<close>

theorem session_invariant:
  assumes "reachable u"
  shows "(isStarted (app u) \<and> \<not> isCompleted (app u) \<longrightarrow>
            length (whySteps (app u)) = currentStep (app u) + 1) \<and>
         currentStep (app u) \<le> 5 \<and>
         (isStarted (app u) \<and> isCompleted (app u) \<longrightarrow> length (whySteps (app u)) = 5) \<and>
         (\<forall>e u'. available e u \<and> fire e u = Inr u' \<and> e \<noteq> ResetClick \<longrightarrow>
            currentStep (app u) \<le> currentStep (app u'))"
proof -
  from assms have s: "shape_ok u" by (rule reachable_shape)
  then have "(isStarted (app u) \<and> \<not> isCompleted (app u) \<longrightarrow>
            length (whySteps (app u)) = currentStep (app u) + 1) \<and>
         currentStep (app u) \<le> 5 \<and>
         (isStarted (app u) \<and> isCompleted (app u) \<longrightarrow> length (whySteps (app u)) = 5)"
    by (auto simp: shape_ok_def isCompleted_def split: if_splits)
  moreover have "\<forall>e u'. available e u \<and> fire e u = Inr u' \<and> e \<noteq> ResetClick \<longrightarrow>
            currentStep (app u) \<le> currentStep (app u')"
    using s by (blast intro: fire_forward)
  ultimately show ?thesis by blast
qed

theorem session_invariant_witness:
  "reachable example_typed \<and>
   isStarted (app example_typed) \<and> \<not> isCompleted (app example_typed) \<and>
   length (whySteps (app example_typed)) = currentStep (app example_typed) + 1 \<and>
   currentStep (app example_typed) \<le> 5 \<and>
   available CardSubmit example_typed \<and>
   fire CardSubmit example_typed = Inr example_answered \<and>
   currentStep (app example_typed) \<le> currentStep (app example_answered) \<and>
   currentStep (app example_answered) = 1"
proof -
  have i: "isStarted (app example_typed) \<and> \<not> isCompleted (app example_typed)"
    by (simp add: example_typed_def example_started_def isCompleted_def)
  have c: "currentStep (app example_answered) = 1"
    by (simp add: example_answered_def)
  from session_invariant [OF example_typed_reachable]
  have inv: "(isStarted (app example_typed) \<and> \<not> isCompleted (app example_typed) \<longrightarrow>
        length (whySteps (app example_typed)) = currentStep (app example_typed) + 1) \<and>
      currentStep (app example_typed) \<le> 5"
    and fwd: "\<forall>e u'. available e example_typed \<and> fire e example_typed = Inr u' \<and> e \<noteq> ResetClick \<longrightarrow>
        currentStep (app example_typed) \<le> currentStep (app u')"
    by blast+
  have "CardSubmit \<noteq> ResetClick" by simp
  with fwd example_typed_available example_answered_fire
  have "currentStep (app example_typed) \<le> currentStep (app example_answered)" by blast
  with inv i c example_typed_reachable example_typed_available example_answered_fire
  show ?thesis by blast
qed

text \<open>
  C10. In every reachable state of a started session with index 0 to 4, the index is a
  valid position of the steps list, so the indexed write of \<open>handleAnswerSubmit\<close> does
  not throw: the call returns a state, for any answer.
\<close>

theorem answer_index_in_bounds:
  assumes "reachable u" and "isStarted (app u)" and "currentStep (app u) \<le> 4"
  shows "currentStep (app u) < length (whySteps (app u)) \<and>
         (\<exists>s'. handleAnswerSubmit a (app u) = Inr s') \<and>
         handleAnswerSubmit a (app u) \<noteq> Inl TypeError"
proof -
  from assms(1) have "shape_ok u" by (rule reachable_shape)
  with assms(2,3) have "currentStep (app u) < length (whySteps (app u))"
    by (auto simp: shape_ok_def)
  then show ?thesis by (simp add: handleAnswerSubmit_step)
qed

theorem answer_index_in_bounds_witness:
  "reachable example_started \<and> isStarted (app example_started) \<and>
   currentStep (app example_started) \<le> 4 \<and>
   currentStep (app example_started) < length (whySteps (app example_started)) \<and>
   handleAnswerSubmit (js_lit ''Battery dead'') (app example_started) \<noteq> Inl TypeError"
proof -
  have h: "isStarted (app example_started)" "currentStep (app example_started) \<le> 4"
    by (simp_all add: example_started_def)
  from answer_index_in_bounds [OF example_started_reachable h, of "js_lit ''Battery dead''"]
  show ?thesis using example_started_reachable h by blast
qed

section \<open>Blank answers\<close>

text \<open>
  C9, amended. Submitting a card whose text is empty or only whitespace and at most 500
  code units long passes the schema and changes nothing: whatever the callback is, it is
  not called, and the card and the owner's state stay as they are; in a reachable state
  of the interface the submit event leaves the whole state unchanged.
\<close>

theorem blank_submit_noop:
  "(trim (inputValue c) = [] \<and> length (inputValue c) \<le> 500 \<longrightarrow>
      inputSchema (inputValue c) = Success (inputValue c) \<and>
      handleSubmit f c s = Inr (c, s)) \<and>
   (reachable u \<and> available CardSubmit u \<and>
    trim (inputValue (cards u ! currentStep (app u))) = [] \<and>
    length (inputValue (cards u ! currentStep (app u))) \<le> 500 \<longrightarrow>
      fire CardSubmit u = Inr u)"
proof -
  have ui: "fire CardSubmit u = Inr u"
    if r: "reachable u" and b: "trim (inputValue (cards u ! currentStep (app u))) = []"
      and l: "length (inputValue (cards u ! currentStep (app u))) \<le> 500"
  proof -
    from r have "shape_ok u" by (rule reachable_shape)
    then have "length (cards u) = mounted (app u)" by (simp add: shape_ok_def)
    then have "reconcile (app u) (cards u) = cards u" by (rule reconcile_id)
    moreover from b l
    have "handleSubmit handleAnswerSubmit (cards u ! currentStep (app u)) (app u) =
        Inr (cards u ! currentStep (app u), app u)" by (rule handleSubmit_blank(2))
    ultimately show ?thesis by simp
  qed
  from handleSubmit_blank(1) [of c] handleSubmit_blank(2) [of c f s] ui show ?thesis by blast
qed

theorem blank_submit_noop_witness:
  "trim (inputValue \<lparr>inputValue = js_lit ''   '', cardError = None\<rparr>) = [] \<and>
   length (inputValue \<lparr>inputValue = js_lit ''   '', cardError = None\<rparr>) \<le> 500 \<and>
   handleSubmit handleAnswerSubmit \<lparr>inputValue = js_lit ''   '', cardError = None\<rparr> (app example_started) =
     Inr (\<lparr>inputValue = js_lit ''   '', cardError = None\<rparr>, app example_started) \<and>
   reachable example_started \<and> available CardSubmit example_started \<and>
   trim (inputValue (cards example_started ! currentStep (app example_started))) = [] \<and>
   length (inputValue (cards example_started ! currentStep (app example_started))) \<le> 500 \<and>
   fire CardSubmit example_started = Inr example_started"
proof -
  have 1: "trim (inputValue \<lparr>inputValue = js_lit ''   '', cardError = None\<rparr>) = [] \<and>
     length (inputValue \<lparr>inputValue = js_lit ''   '', cardError = None\<rparr>) \<le> 500"
    by (simp add: trim_def isWhiteSpace_def js_lit_def)
  have 2: "available CardSubmit example_started \<and>
     trim (inputValue (cards example_started ! currentStep (app example_started))) = [] \<and>
     length (inputValue (cards example_started ! currentStep (app example_started))) \<le> 500"
    by (simp add: ui_defs)
  from blank_submit_noop [of "\<lparr>inputValue = js_lit ''   '', cardError = None\<rparr>"
      handleAnswerSubmit "app example_started" example_started] 1 2 example_started_reachable
  show ?thesis by blast
qed

text \<open>
  As the claim stands it fails for whitespace longer than 500 code units: 501 spaces trim
  to the empty string, and the schema rejects them with the length message.
\<close>

theorem blank_submit_counterexample:
  "trim (replicate 501 0x20) = [] \<and>
   handleSubmit handleAnswerSubmit \<lparr>inputValue = replicate 501 0x20, cardError = None\<rparr>
       (app example_started) =
     Inr (\<lparr>inputValue = replicate 501 0x20,
           cardError = Some (js_lit ''Text too long (max 500 characters)'')\<rparr>,
          app example_started)"
  by (simp add: trim_def isWhiteSpace_def handleSubmit_def inputSchema_def first_message_def
      js_lit_def Let_def)

section \<open>Validation of answers\<close>

text \<open>
  C5, amended. The answer schema has the 500 code unit cap and the injection pattern of
  the problem schema but no minimum length: an answer passes exactly when it has at most
  500 code units and does not match the pattern, the problem schema asks for at least 3
  code units in addition, and on strings of 3 code units or more the two schemas give the
  same result. A rejected answer leaves the owner's state alone and puts the message of
  the first failed check on the card. An accepted answer that is not blank is forwarded:
  the callback is called on its trimmed text, the result of the submission is the
  callback's result, and the card's input is cleared when the callback returns. An
  accepted blank answer changes nothing.
\<close>

theorem inputSchema_accepts:
  "(inputSchema v = Success v \<longleftrightarrow> length v \<le> 500 \<and> \<not> regex_test injection_pattern v) \<and>
   (problemSchema v = Success v \<longleftrightarrow>
      3 \<le> length v \<and> length v \<le> 500 \<and> \<not> regex_test injection_pattern v) \<and>
   (3 \<le> length v \<longrightarrow> inputSchema v = problemSchema v) \<and>
   (500 < length v \<or> regex_test injection_pattern v \<longrightarrow>
      handleSubmit f (c\<lparr>inputValue := v\<rparr>) s =
        Inr (c\<lparr>inputValue := v,
               cardError := Some (if 500 < length v then js_lit ''Text too long (max 500 characters)''
                                  else js_lit ''Invalid content'')\<rparr>, s)) \<and>
   (length v \<le> 500 \<and> \<not> regex_test injection_pattern v \<and> trim v \<noteq> [] \<longrightarrow>
      handleSubmit f (c\<lparr>inputValue := v\<rparr>) s =
        (case f (trim v) s of
           Inl e \<Rightarrow> Inl e
         | Inr s' \<Rightarrow> Inr (c\<lparr>inputValue := []\<rparr>, s')) \<and>
      handleSubmit record_answer (c\<lparr>inputValue := v\<rparr>) log =
        Inr (c\<lparr>inputValue := []\<rparr>, log @ [trim v])) \<and>
   (length v \<le> 500 \<and> \<not> regex_test injection_pattern v \<and> trim v = [] \<longrightarrow>
      handleSubmit f (c\<lparr>inputValue := v\<rparr>) s = Inr (c\<lparr>inputValue := v\<rparr>, s))"
proof -
  have rej: "handleSubmit f (c\<lparr>inputValue := v\<rparr>) s =
        Inr (c\<lparr>inputValue := v,
               cardError := Some (if 500 < length v then js_lit ''Text too long (max 500 characters)''
                                  else js_lit ''Invalid content'')\<rparr>, s)"
    if "500 < length v \<or> regex_test injection_pattern v"
  proof -
    from inputSchema_Failure [OF that] obtain issues where
      "inputSchema v = Failure issues" and
      "first_message issues =
         (if 500 < length v then js_lit ''Text too long (max 500 characters)''
          else js_lit ''Invalid content'')"
      by blast
    then show ?thesis by (simp add: handleSubmit_def)
  qed
  have acc: "inputSchema v = Success v"
    if "length v \<le> 500" and "\<not> regex_test injection_pattern v"
    using that by (simp add: inputSchema_Success)
  have fwd: "handleSubmit f (c\<lparr>inputValue := v\<rparr>) s =
        (case f (trim v) s of
           Inl e \<Rightarrow> Inl e
         | Inr s' \<Rightarrow> Inr (c\<lparr>inputValue := []\<rparr>, s'))"
    if "length v \<le> 500" and "\<not> regex_test injection_pattern v" and "trim v \<noteq> []"
    using acc [OF that(1,2)] that(3) by (simp add: handleSubmit_def split: sum.splits)
  have rec: "handleSubmit record_answer (c\<lparr>inputValue := v\<rparr>) log =
        Inr (c\<lparr>inputValue := []\<rparr>, log @ [trim v])"
    if "length v \<le> 500" and "\<not> regex_test injection_pattern v" and "trim v \<noteq> []"
    using acc [OF that(1,2)] that(3) by (simp add: handleSubmit_def record_answer_def)
  have blank: "handleSubmit f (c\<lparr>inputValue := v\<rparr>) s = Inr (c\<lparr>inputValue := v\<rparr>, s)"
    if "length v \<le> 500" and "\<not> regex_test injection_pattern v" and "trim v = []"
    using acc [OF that(1,2)] that(3) by (simp add: handleSubmit_def)
  have schemas: "(inputSchema v = Success v \<longleftrightarrow> length v \<le> 500 \<and> \<not> regex_test injection_pattern v) \<and>
     (problemSchema v = Success v \<longleftrightarrow>
        3 \<le> length v \<and> length v \<le> 500 \<and> \<not> regex_test injection_pattern v) \<and>
     (3 \<le> length v \<longrightarrow> inputSchema v = problemSchema v)"
    by (simp add: inputSchema_Success problemSchema_Success schemas_agree)
  from schemas rej fwd rec blank show ?thesis by blast
qed

theorem inputSchema_accepts_witness:
  "3 \<le> length (js_lit ''<Script x'') \<and> regex_test injection_pattern (js_lit ''<Script x'') \<and>
   inputSchema (js_lit ''<Script x'') = problemSchema (js_lit ''<Script x'') \<and>
   inputSchema (js_lit ''<Script x'') \<noteq> Success (js_lit ''<Script x'') \<and>
   handleSubmit handleAnswerSubmit (init_card\<lparr>inputValue := js_lit ''<Script x''\<rparr>) (app example_started) =
     Inr (init_card\<lparr>inputValue := js_lit ''<Script x'',
                     cardError := Some (js_lit ''Invalid content'')\<rparr>, app example_started) \<and>
   length (js_lit '' ok '') \<le> 500 \<and> \<not> regex_test injection_pattern (js_lit '' ok '') \<and>
   trim (js_lit '' ok '') = js_lit ''ok'' \<and>
   handleSubmit handleAnswerSubmit (init_card\<lparr>inputValue := js_lit '' ok ''\<rparr>) (app example_started) =
     Inr (init_card,
          \<lparr>problem = example_problem, isStarted = True,
           whySteps = [\<lparr>question = why_question example_problem, answer = js_lit ''ok''\<rparr>,
                       \<lparr>question = js_lit ''Why is \"ok\" happening?'', answer = []\<rparr>],
           currentStep = 1, error = None\<rparr>) \<and>
   handleSubmit record_answer (init_card\<lparr>inputValue := js_lit '' ok ''\<rparr>) [] =
     Inr (init_card, [js_lit ''ok'']) \<and>
   length (js_lit ''  '') \<le> 500 \<and> \<not> regex_test injection_pattern (js_lit ''  '') \<and>
   trim (js_lit ''  '') = [] \<and>
   handleSubmit handleAnswerSubmit (init_card\<lparr>inputValue := js_lit ''  ''\<rparr>) (app example_started) =
     Inr (init_card\<lparr>inputValue := js_lit ''  ''\<rparr>, app example_started)"
proof -
  have h: "3 \<le> length (js_lit ''<Script x'')" "regex_test injection_pattern (js_lit ''<Script x'')"
    "\<not> 500 < length (js_lit ''<Script x'')"
    by (simp_all add: regex_defs)
  from inputSchema_accepts [of "js_lit ''<Script x''" handleAnswerSubmit init_card "app example_started"] h
  have rejected: "inputSchema (js_lit ''<Script x'') = problemSchema (js_lit ''<Script x'') \<and>
     inputSchema (js_lit ''<Script x'') \<noteq> Success (js_lit ''<Script x'') \<and>
     handleSubmit handleAnswerSubmit (init_card\<lparr>inputValue := js_lit ''<Script x''\<rparr>) (app example_started) =
       Inr (init_card\<lparr>inputValue := js_lit ''<Script x'',
                       cardError := Some (js_lit ''Invalid content'')\<rparr>, app example_started)"
    by simp
  have k: "length (js_lit '' ok '') \<le> 500" "\<not> regex_test injection_pattern (js_lit '' ok '')"
    "trim (js_lit '' ok '') = js_lit ''ok''"
    by (simp_all add: regex_defs trim_def isWhiteSpace_def)
  then have k3: "trim (js_lit '' ok '') \<noteq> []" by (simp add: js_lit_def)
  have call: "handleAnswerSubmit (js_lit ''ok'') (app example_started) =
      Inr \<lparr>problem = example_problem, isStarted = True,
           whySteps = [\<lparr>question = why_question example_problem, answer = js_lit ''ok''\<rparr>,
                       \<lparr>question = js_lit ''Why is \"ok\" happening?'', answer = []\<rparr>],
           currentStep = 1, error = None\<rparr>"
    by (simp add: handleAnswerSubmit_def example_started_def why_question_def js_lit_def)
  from inputSchema_accepts [of "js_lit '' ok ''" handleAnswerSubmit init_card "app example_started" "[]"]
    k(1,2) k3
  have "handleSubmit handleAnswerSubmit (init_card\<lparr>inputValue := js_lit '' ok ''\<rparr>) (app example_started) =
        (case handleAnswerSubmit (trim (js_lit '' ok '')) (app example_started) of
           Inl e \<Rightarrow> Inl e
         | Inr s' \<Rightarrow> Inr (init_card\<lparr>inputValue := []\<rparr>, s'))"
    and "handleSubmit record_answer (init_card\<lparr>inputValue := js_lit '' ok ''\<rparr>) [] =
        Inr (init_card\<lparr>inputValue := []\<rparr>, [] @ [trim (js_lit '' ok '')])"
    by blast+
  then have forwarded:
    "handleSubmit handleAnswerSubmit (init_card\<lparr>inputValue := js_lit '' ok ''\<rparr>) (app example_started) =
       Inr (init_card,
          \<lparr>problem = example_problem, isStarted = True,
           whySteps = [\<lparr>question = why_question example_problem, answer = js_lit ''ok''\<rparr>,
                       \<lparr>question = js_lit ''Why is \"ok\" happening?'', answer = []\<rparr>],
           currentStep = 1, error = None\<rparr>) \<and>
     handleSubmit record_answer (init_card\<lparr>inputValue := js_lit '' ok ''\<rparr>) [] =
       Inr (init_card, [js_lit ''ok''])"
    by (simp add: k(3) call init_card_def)
  have b: "length (js_lit ''  '') \<le> 500" "\<not> regex_test injection_pattern (js_lit ''  '')"
    "trim (js_lit ''  '') = []"
    by (simp_all add: regex_defs trim_def isWhiteSpace_def)
  from inputSchema_accepts [of "js_lit ''  ''" handleAnswerSubmit init_card "app example_started"] b
  have blank: "handleSubmit handleAnswerSubmit (init_card\<lparr>inputValue := js_lit ''  ''\<rparr>) (app example_started) =
     Inr (init_card\<lparr>inputValue := js_lit ''  ''\<rparr>, app example_started)"
    by blast
  from h(1,2) rejected k forwarded b blank show ?thesis by blast
qed

text \<open>
  As the claim stands it fails for short answers: the two-unit answer \<open>no\<close> is refused by
  the problem schema, passes the answer schema, and is recorded as the first answer.
\<close>

theorem inputSchema_min_counterexample:
  "length (js_lit ''no'') < 3 \<and>
   problemSchema (js_lit ''no'') = Failure [js_lit ''Problem must be at least 3 characters''] \<and>
   inputSchema (js_lit ''no'') = Success (js_lit ''no'') \<and>
   run [CardChange (js_lit ''no''), CardSubmit] example_started =
     Inr \<lparr>app = \<lparr>problem = example_problem, isStarted = True,
                 whySteps = [\<lparr>question = why_question example_problem, answer = js_lit ''no''\<rparr>,
                             \<lparr>question = js_lit ''Why is \"no\" happening?'', answer = []\<rparr>],
                 currentStep = 1, error = None\<rparr>,
          cards = [init_card, init_card]\<rparr>"
  by (simp add: ui_defs regex_defs)

section \<open>Trimming\<close>

text \<open>
  C7, amended. The only value \<open>handleSubmit\<close> hands to its callback is the trimmed,
  non-empty input of the card, so every answer recorded in a reachable state has no
  leading or trailing whitespace. (The problem text is not part of this statement.)
\<close>

theorem answers_trimmed:
  "(handleSubmit record_answer c [] = Inr (c', log) \<longrightarrow>
      (log = [] \<or> log = [trim (inputValue c)]) \<and> (\<forall>a\<in>set log. trimmed a \<and> a \<noteq> [])) \<and>
   (reachable u \<longrightarrow> (\<forall>st\<in>set (whySteps (app u)). trimmed (answer st)))"
proof -
  have "(log = [] \<or> log = [trim (inputValue c)]) \<and> (\<forall>a\<in>set log. trimmed a \<and> a \<noteq> [])"
    if "handleSubmit record_answer c [] = Inr (c', log)"
    using handleSubmit_cases [OF that] trimmed_trim [of "inputValue c"]
    by (auto simp: record_answer_def)
  with reachable_answers [of u] show ?thesis by blast
qed

theorem answers_trimmed_witness:
  "handleSubmit record_answer \<lparr>inputValue = js_lit ''  Battery dead '', cardError = None\<rparr> [] =
     Inr (\<lparr>inputValue = [], cardError = None\<rparr>, [js_lit ''Battery dead'']) \<and>
   trimmed (js_lit ''Battery dead'') \<and>
   reachable example_answered \<and>
   whySteps (app example_answered) =
     [\<lparr>question = why_question example_problem, answer = js_lit ''Battery dead''\<rparr>,
      \<lparr>question = why_question (js_lit ''Battery dead''), answer = []\<rparr>] \<and>
   trimmed (answer (whySteps (app example_answered) ! 0))"
proof -
  have 1: "handleSubmit record_answer \<lparr>inputValue = js_lit ''  Battery dead '', cardError = None\<rparr> [] =
     Inr (\<lparr>inputValue = [], cardError = None\<rparr>, [js_lit ''Battery dead''])"
    by (simp add: handleSubmit_def record_answer_def inputSchema_def trim_def isWhiteSpace_def
        regex_defs)
  have 2: "whySteps (app example_answered) =
     [\<lparr>question = why_question example_problem, answer = js_lit ''Battery dead''\<rparr>,
      \<lparr>question = why_question (js_lit ''Battery dead''), answer = []\<rparr>]"
    by (simp add: example_answered_def)
  from answers_trimmed [of "\<lparr>inputValue = js_lit ''  Battery dead '', cardError = None\<rparr>"
      "\<lparr>inputValue = [], cardError = None\<rparr>" "[js_lit ''Battery dead'']" example_answered]
    1 example_answered_reachable
  have "trimmed (js_lit ''Battery dead'')"
    and "\<forall>st\<in>set (whySteps (app example_answered)). trimmed (answer st)"
    by auto
  with 1 2 example_answered_reachable show ?thesis by simp
qed

text \<open>
  As the claim stands it fails for the problem text, which \<open>startAnalysis\<close> stores and
  embeds as typed: \<open>" ab "\<close> passes the schema and keeps its spaces.
\<close>

theorem problem_untrimmed_counterexample:
  "run [ProblemChange (js_lit '' ab ''), StartClick] initial_ui =
     Inr \<lparr>app = \<lparr>problem = js_lit '' ab '', isStarted = True,
                 whySteps = [\<lparr>question = js_lit ''Why is \" ab \" happening?'', answer = []\<rparr>],
                 currentStep = 0, error = None\<rparr>,
          cards = [init_card]\<rparr> \<and>
   \<not> trimmed (js_lit '' ab '')"
  by (simp add: ui_defs regex_defs trimmed_def)

section \<open>The sanitizer\<close>

text \<open>
  C6, amended. The output of \<open>sanitizeInput\<close> contains no complete tag: no \<open><\<close> with a
  \<open>>\<close> anywhere after it. A sanitized string that either schema accepts contains no
  \<open><script\<close>, no \<open>javascript:\<close> and no \<open>on<word>=\<close> fragment; one that still contains such
  a fragment is rejected by both schemas.
\<close>

theorem sanitizeInput_output:
  "\<not> regex_test html_tag (sanitizeInput v) \<and>
   (inputSchema (sanitizeInput v) = Success (sanitizeInput v) \<or>
    problemSchema (sanitizeInput v) = Success (sanitizeInput v) \<longrightarrow>
      \<not> regex_test script_open (sanitizeInput v) \<and>
      \<not> regex_test javascript_scheme (sanitizeInput v) \<and>
      \<not> regex_test on_handler (sanitizeInput v)) \<and>
   (regex_test script_open (sanitizeInput v) \<or> regex_test javascript_scheme (sanitizeInput v) \<or>
    regex_test on_handler (sanitizeInput v) \<longrightarrow>
      (\<exists>issues. inputSchema (sanitizeInput v) = Failure issues) \<and>
      (\<exists>issues. problemSchema (sanitizeInput v) = Failure issues))"
proof -
  have "\<exists>issues. inputSchema w = Failure issues" if "regex_test injection_pattern w" for w
    using inputSchema_Failure [of w] that by blast
  moreover have "\<exists>issues. problemSchema w = Failure issues" if "regex_test injection_pattern w" for w
    using problemSchema_invalid [of w] that by blast
  ultimately show ?thesis
    using sanitizeInput_no_tag [of v]
    by (auto simp: inputSchema_Success problemSchema_Success regex_test_injection)
qed

theorem sanitizeInput_output_witness:
  "sanitizeInput (js_lit ''<b>Belt</b> broke'') = js_lit ''Belt broke'' \<and>
   \<not> regex_test html_tag (js_lit ''Belt broke'') \<and>
   inputSchema (js_lit ''Belt broke'') = Success (js_lit ''Belt broke'') \<and>
   \<not> regex_test script_open (js_lit ''Belt broke'') \<and>
   \<not> regex_test javascript_scheme (js_lit ''Belt broke'') \<and>
   \<not> regex_test on_handler (js_lit ''Belt broke'')"
proof -
  have s: "sanitizeInput (js_lit ''<b>Belt</b> broke'') = js_lit ''Belt broke''"
    by (simp add: sanitizeInput_def regex_defs)
  have a: "inputSchema (js_lit ''Belt broke'') = Success (js_lit ''Belt broke'')"
    by (simp add: inputSchema_def regex_defs)
  from sanitizeInput_output [of "js_lit ''<b>Belt</b> broke''"] a show ?thesis
    unfolding s using s by blast
qed

text \<open>
  As the claim stands it fails: an unclosed \<open><script\<close> is not a tag, and deleting an inner
  match can join its neighbours into a new one, which the single scan does not see.
\<close>

theorem sanitizeInput_counterexample:
  "sanitizeInput (js_lit ''javajavascript:script:oonx=nx=<script'') = js_lit ''javascript:onx=<script'' \<and>
   regex_test script_open (sanitizeInput (js_lit ''javajavascript:script:oonx=nx=<script'')) \<and>
   regex_test javascript_scheme (sanitizeInput (js_lit ''javajavascript:script:oonx=nx=<script'')) \<and>
   regex_test on_handler (sanitizeInput (js_lit ''javajavascript:script:oonx=nx=<script''))"
proof -
  have s: "sanitizeInput (js_lit ''javajavascript:script:oonx=nx=<script'') = js_lit ''javascript:onx=<script''"
    by (simp add: sanitizeInput_def regex_defs)
  show ?thesis unfolding s by (simp add: regex_defs)
qed

end
